theory Spec2Isabelle
  imports Complex_Main "HOL-Library.AList" "HOL-Library.Word"
begin

section \<open>Python values\<close>

text \<open>
  The server of \<^verbatim>\<open>tbears/server/jsonrpc_server.py\<close> handles the values that
  \<^verbatim>\<open>json.loads\<close> produces and that the execution backend returns: \<^verbatim>\<open>None\<close>, booleans,
  integers (unbounded), floats, strings, lists and dicts with string keys. A dict is an
  association list in insertion order, as Python keeps it. Finite floats are rationals;
  \<^verbatim>\<open>NaN\<close> and the infinities are left out.
\<close>

datatype json =
    JNull
  | JBool bool
  | JInt int
  | JFloat rat
  | JStr string
  | JList "json list"
  | JDict "(string \<times> json) list"

text \<open>
  The exceptions of the source. \<^verbatim>\<open>GenericJsonRpcServerError\<close> carries the code, the message
  and the HTTP status it is constructed with; \<^verbatim>\<open>OtherError\<close> stands for an exception raised
  by the execution backend, named by its text.
\<close>

datatype exn =
    KeyError
  | IndexError
  | TypeError
  | AttributeError
  | UnicodeDecodeError
  | JSONDecodeError
  | GenericJsonRpcServerError json json int
  | OtherError string

text \<open>Constants of \<^verbatim>\<open>jsonrpcserver\<close>: \<^verbatim>\<open>status.HTTP_BAD_REQUEST\<close>, \<^verbatim>\<open>InvalidParams.code\<close>,
  \<^verbatim>\<open>ServerError.code\<close>.\<close>

definition HTTP_BAD_REQUEST :: int where
  "HTTP_BAD_REQUEST = 400"

definition InvalidParams_code :: int where
  "InvalidParams_code = - 32602"

definition ServerError_code :: int where
  "ServerError_code = - 32000"

subsection \<open>Built-in operations of Python used by the source\<close>

text \<open>\<^verbatim>\<open>hex(n)\<close>: lowercase digits after \<^verbatim>\<open>0x\<close>, a minus sign in front for a negative
  number.\<close>

definition hex_digit :: "nat \<Rightarrow> char" where
  "hex_digit d = ''0123456789abcdef'' ! d"

fun hex_digits :: "nat \<Rightarrow> string" where
  "hex_digits n =
     (if n < 16 then [hex_digit n] else hex_digits (n div 16) @ [hex_digit (n mod 16)])"

declare hex_digits.simps [simp del]

definition hex :: "int \<Rightarrow> string" where
  "hex n = (if n < 0 then ''-0x'' @ hex_digits (nat (- n)) else ''0x'' @ hex_digits (nat n))"

text \<open>\<^verbatim>\<open>xs[0]\<close> on a list.\<close>

definition py_first :: "json list \<Rightarrow> exn + json" where
  "py_first xs = (case xs of [] \<Rightarrow> Inl IndexError | x # _ \<Rightarrow> Inr x)"

text \<open>\<^verbatim>\<open>obj['name']\<close> with a string subscript: a dict looks the key up, every other value
  raises \<^verbatim>\<open>TypeError\<close> (a list or a string wants an integer index, the rest is not
  subscriptable).\<close>

definition py_getitem :: "json \<Rightarrow> string \<Rightarrow> exn + json" where
  "py_getitem obj name =
     (case obj of
        JDict kvs \<Rightarrow> (case map_of kvs name of None \<Rightarrow> Inl KeyError | Some v \<Rightarrow> Inr v)
      | _ \<Rightarrow> Inl TypeError)"

text \<open>\<^verbatim>\<open>v == 1\<close>: \<^verbatim>\<open>True\<close> and \<^verbatim>\<open>1.0\<close> are equal to \<^verbatim>\<open>1\<close>.\<close>

definition py_eq_1 :: "json \<Rightarrow> bool" where
  "py_eq_1 v = (case v of JInt n \<Rightarrow> n = 1 | JBool b \<Rightarrow> b | JFloat q \<Rightarrow> q = 1 | _ \<Rightarrow> False)"

text \<open>Unary minus: defined on numbers (a boolean counts as \<^verbatim>\<open>0\<close> or \<^verbatim>\<open>1\<close>).\<close>

definition py_neg :: "json \<Rightarrow> exn + json" where
  "py_neg v =
     (case v of
        JInt n \<Rightarrow> Inr (JInt (- n))
      | JBool b \<Rightarrow> Inr (JInt (- (if b then 1 else 0)))
      | JFloat q \<Rightarrow> Inr (JFloat (- q))
      | _ \<Rightarrow> Inl TypeError)"

text \<open>
  The key a value denotes in a dict: lists and dicts are unhashable (\<^verbatim>\<open>None\<close> here, a
  \<^verbatim>\<open>TypeError\<close> in Python); \<^verbatim>\<open>True\<close>, \<^verbatim>\<open>False\<close> and integral floats hash and compare
  equal to the integer. Two hashable values are the same dict key exactly when their
  \<open>py_key\<close> is equal.
\<close>

definition py_key :: "json \<Rightarrow> json option" where
  "py_key v =
     (case v of
        JList _ \<Rightarrow> None
      | JDict _ \<Rightarrow> None
      | JBool b \<Rightarrow> Some (JInt (if b then 1 else 0))
      | JFloat q \<Rightarrow> Some (if of_int \<lfloor>q\<rfloor> = q then JInt \<lfloor>q\<rfloor> else JFloat q)
      | _ \<Rightarrow> Some v)"

section \<open>Integer normalisation\<close>

text \<open>
  \<^verbatim>\<open>integers_to_hex\<close> rewrites its argument in place and returns it. It looks at the
  direct items of a dict or a list: a dict or list item is processed recursively, an
  \<^verbatim>\<open>int\<close> item is replaced by \<^verbatim>\<open>hex(v)\<close>, any other item stays. A \<^verbatim>\<open>bool\<close> is an instance
  of \<^verbatim>\<open>int\<close> in Python, so it is replaced as well. An argument that is neither a dict nor
  a list is returned as it is.
\<close>

fun integers_to_hex :: "json \<Rightarrow> json" where
  "integers_to_hex (JDict kvs) =
     JDict (map (\<lambda>(k, v).
       (k, (case v of
              JDict _ \<Rightarrow> integers_to_hex v
            | JList _ \<Rightarrow> integers_to_hex v
            | JBool b \<Rightarrow> JStr (hex (if b then 1 else 0))
            | JInt n \<Rightarrow> JStr (hex n)
            | _ \<Rightarrow> v))) kvs)"
| "integers_to_hex (JList xs) =
     JList (map (\<lambda>v.
       (case v of
          JDict _ \<Rightarrow> integers_to_hex v
        | JList _ \<Rightarrow> integers_to_hex v
        | JBool b \<Rightarrow> JStr (hex (if b then 1 else 0))
        | JInt n \<Rightarrow> JStr (hex n)
        | _ \<Rightarrow> v)) xs)"
| "integers_to_hex res = res"

text \<open>What the two loops do to one item.\<close>

definition hex_item :: "json \<Rightarrow> json" where
  "hex_item v =
     (case v of
        JDict _ \<Rightarrow> integers_to_hex v
      | JList _ \<Rightarrow> integers_to_hex v
      | JBool b \<Rightarrow> JStr (hex (if b then 1 else 0))
      | JInt n \<Rightarrow> JStr (hex n)
      | _ \<Rightarrow> v)"

text \<open>
  A position inside a value: the dict keys and list indices on the way down from the
  top. \<open>json_at v p\<close> is the value found at \<open>p\<close>, if the path exists.
\<close>

datatype step = Key string | Idx nat

fun json_at :: "json \<Rightarrow> step list \<Rightarrow> json option" where
  "json_at v [] = Some v"
| "json_at (JDict kvs) (Key k # p) =
     (case map_of kvs k of None \<Rightarrow> None | Some x \<Rightarrow> json_at x p)"
| "json_at (JList xs) (Idx i # p) = (if i < length xs then json_at (xs ! i) p else None)"
| "json_at _ (_ # _) = None"

section \<open>The result cache\<close>

text \<open>
  \<^verbatim>\<open>class TxResultMapper\<close>: the dict \<^verbatim>\<open>__mapper\<close> and the list \<^verbatim>\<open>__key_list\<close> of the keys
  in the order of the calls of \<^verbatim>\<open>put\<close>. The dict is keyed by \<open>py_key\<close>; the list holds the
  keys as they were passed. The methods mutate the object; here each returns its result
  (\<open>Inl\<close> the exception raised) and the object as it is afterwards, which is the object
  a later call finds, also after an exception.
\<close>

record TxResultMapper =
  limit_capacity :: int
  mapper :: "(json \<times> json) list"
  key_list :: "json list"

text \<open>\<^verbatim>\<open>__init__(self, limit_capacity = 1000)\<close>\<close>

definition TxResultMapper_init :: "int \<Rightarrow> TxResultMapper" where
  "TxResultMapper_init limit = \<lparr>limit_capacity = limit, mapper = [], key_list = []\<rparr>"

definition len :: "TxResultMapper \<Rightarrow> int" where
  "len m = int (length (mapper m))"

text \<open>
  \<^verbatim>\<open>__check_limit\<close>: when the dict holds more than \<^verbatim>\<open>limit_capacity\<close> entries, the key at
  position 0 of the list is read (\<^verbatim>\<open>IndexError\<close> on an empty list), popped, and deleted
  from the dict (\<^verbatim>\<open>KeyError\<close> when the dict does not hold it).
\<close>

definition check_limit :: "TxResultMapper \<Rightarrow> (exn + unit) \<times> TxResultMapper" where
  "check_limit m =
     (if len m > limit_capacity m then
        (case key_list m of
           [] \<Rightarrow> (Inl IndexError, m)
         | key # rest \<Rightarrow>
             let m1 = m\<lparr>key_list := rest\<rparr> in
             (case py_key key of
                None \<Rightarrow> (Inl TypeError, m1)
              | Some k \<Rightarrow>
                  if k \<in> fst ` set (mapper m1)
                  then (Inr (), m1\<lparr>mapper := AList.delete k (mapper m1)\<rparr>)
                  else (Inl KeyError, m1)))
      else (Inr (), m))"

definition put :: "TxResultMapper \<Rightarrow> json \<Rightarrow> json \<Rightarrow> (exn + unit) \<times> TxResultMapper" where
  "put m key val =
     (case check_limit m of
        (Inl e, m1) \<Rightarrow> (Inl e, m1)
      | (Inr _, m1) \<Rightarrow>
          let m2 = m1\<lparr>key_list := key_list m1 @ [key]\<rparr> in
          (case py_key key of
             None \<Rightarrow> (Inl TypeError, m2)
           | Some k \<Rightarrow> (Inr (), m2\<lparr>mapper := AList.update k val (mapper m2)\<rparr>)))"

text \<open>\<^verbatim>\<open>get\<close> is \<^verbatim>\<open>self.__mapper.get(key, None)\<close>, \<^verbatim>\<open>__getitem__\<close> is \<^verbatim>\<open>self.__mapper[item]\<close>.\<close>

definition get :: "TxResultMapper \<Rightarrow> json \<Rightarrow> exn + json" where
  "get m key =
     (case py_key key of
        None \<Rightarrow> Inl TypeError
      | Some k \<Rightarrow> Inr (case map_of (mapper m) k of None \<Rightarrow> JNull | Some v \<Rightarrow> v))"

definition getitem :: "TxResultMapper \<Rightarrow> json \<Rightarrow> exn + json" where
  "getitem m item =
     (case py_key item of
        None \<Rightarrow> Inl TypeError
      | Some k \<Rightarrow> (case map_of (mapper m) k of None \<Rightarrow> Inl KeyError | Some v \<Rightarrow> Inr v))"

text \<open>A sequence of calls of \<^verbatim>\<open>put\<close> on one object, each caller catching what its call
  raises: the object after the last call.\<close>

fun put_all :: "TxResultMapper \<Rightarrow> (json \<times> json) list \<Rightarrow> TxResultMapper" where
  "put_all m [] = m"
| "put_all m ((key, val) # kvs) = put_all (snd (put m key val)) kvs"

text \<open>The keys \<^verbatim>\<open>lo, lo + 1, ..., hi - 1\<close>, each stored with the value \<^verbatim>\<open>None\<close>.\<close>

definition int_keys :: "nat \<Rightarrow> nat \<Rightarrow> (json \<times> json) list" where
  "int_keys lo hi = map (\<lambda>i. (JInt (int i), JNull)) [lo..<hi]"

section \<open>The server\<close>

text \<open>
  The module's globals after start-up (\<^verbatim>\<open>init_tbears\<close>, \<^verbatim>\<open>init_icon_inner_task\<close>):
  \<^verbatim>\<open>__block_height\<close>, \<^verbatim>\<open>__tx_result_mapper\<close>, and the execution backend
  \<^verbatim>\<open>__icon_inner_task\<close>. The backend is not part of this program; what the server does to
  it is the list of the calls made on it, oldest first. \<^verbatim>\<open>MQ_TEST\<close> is \<^verbatim>\<open>False\<close>, so the
  handlers take their \<^verbatim>\<open>else\<close> branches.
\<close>

datatype backend_call =
    Icx_send_transaction json
  | Write_precommit_state
  | Remove_precommit_state

record server =
  block_height :: int
  tx_result_mapper :: TxResultMapper
  backend_calls :: "backend_call list"

text \<open>\<^verbatim>\<open>__block_height = 0\<close>, \<^verbatim>\<open>__tx_result_mapper = TxResultMapper()\<close>\<close>

definition server_init :: server where
  "server_init =
     \<lparr>block_height = 0, tx_result_mapper = TxResultMapper_init 1000, backend_calls = []\<rparr>"

definition get_block_height :: "server \<Rightarrow> int \<times> server" where
  "get_block_height s = (block_height s + 1, s\<lparr>block_height := block_height s + 1\<rparr>)"

text \<open>
  What one call of \<^verbatim>\<open>icx_sendTransaction\<close> takes from outside the program:
  \<^item> what \<^verbatim>\<open>JsonRpcMessageValidator.validate(method, params)\<close> does: it returns, raises an
    \<^verbatim>\<open>IconServiceBaseException\<close> with a code and a message, or raises another exception
    with some \<^verbatim>\<open>repr\<close>;
  \<^item> the SHA3-256 digest \<^verbatim>\<open>create_hash(json.dumps(request_params).encode())\<close>;
  \<^item> the clock \<^verbatim>\<open>int(time.time() * 10 ** 6)\<close>, which fits 8 bytes (\<^verbatim>\<open>to_bytes(8, 'big')\<close>
    does not overflow before the year 586,000), and the digest of these bytes;
  \<^item> what the backend's \<^verbatim>\<open>icx_send_transaction\<close> does: it raises, or returns a reply;
  \<^item> whether the backend's \<^verbatim>\<open>write_precommit_state\<close> or \<^verbatim>\<open>remove_precommit_state\<close>, when
    called, raises.
\<close>

datatype validation =
    Valid
  | IconServiceBaseException int string
  | UnexpectedException string

record world =
  validate :: validation
  params_hash :: string
  time_us :: "64 word"
  time_hash :: string
  execute :: "exn + json"
  finalize :: "exn option"

definition validate_jsonrpc_message :: "validation \<Rightarrow> exn + unit" where
  "validate_jsonrpc_message v =
     (case v of
        Valid \<Rightarrow> Inr ()
      | IconServiceBaseException code message \<Rightarrow>
          Inl (GenericJsonRpcServerError (JInt (- code)) (JStr message) HTTP_BAD_REQUEST)
      | UnexpectedException repr \<Rightarrow>
          Inl (GenericJsonRpcServerError (JInt ServerError_code) (JStr repr) HTTP_BAD_REQUEST))"

definition response_to_json :: "server \<Rightarrow> json \<Rightarrow> (exn + json) \<times> server" where
  "response_to_json s response =
     (case response of
        JList xs \<Rightarrow>
          (case py_first xs of
             Inl e \<Rightarrow> (Inl e, s)
           | Inr tx_result \<Rightarrow>
               (case py_getitem tx_result ''txHash'' of
                  Inl e \<Rightarrow> (Inl e, s)
                | Inr tx_hash \<Rightarrow>
                    (case put (tx_result_mapper s) tx_hash tx_result of
                       (Inl e, m) \<Rightarrow> (Inl e, s\<lparr>tx_result_mapper := m\<rparr>)
                     | (Inr _, m) \<Rightarrow> (Inr tx_hash, s\<lparr>tx_result_mapper := m\<rparr>))))
      | _ \<Rightarrow>
          (case py_getitem response ''code'' of
             Inl e \<Rightarrow> (Inl e, s)
           | Inr c \<Rightarrow>
               (case py_neg c of
                  Inl e \<Rightarrow> (Inl e, s)
                | Inr code \<Rightarrow>
                    (case py_getitem response ''message'' of
                       Inl e \<Rightarrow> (Inl e, s)
                     | Inr message \<Rightarrow>
                         (Inl (GenericJsonRpcServerError code message HTTP_BAD_REQUEST), s)))))"

text \<open>
  The \<^verbatim>\<open>if\<close>/\<^verbatim>\<open>elif\<close>/\<^verbatim>\<open>else\<close> after the backend's reply: which of the two calls is made.
  Evaluating \<^verbatim>\<open>response[0]['status']\<close> can raise; then neither is made.
\<close>

definition precommit_decision :: "json \<Rightarrow> exn + backend_call" where
  "precommit_decision response =
     (case response of
        JList xs \<Rightarrow>
          (case py_first xs of
             Inl e \<Rightarrow> Inl e
           | Inr r0 \<Rightarrow>
               (case py_getitem r0 ''status'' of
                  Inl e \<Rightarrow> Inl e
                | Inr st \<Rightarrow>
                    Inr (if py_eq_1 st then Write_precommit_state else Remove_precommit_state)))
      | _ \<Rightarrow> Inr Remove_precommit_state)"

text \<open>The request passed to the backend: one transaction and the block made for it.\<close>

definition make_request :: "(string \<times> json) list \<Rightarrow> string \<Rightarrow> int \<Rightarrow> string \<Rightarrow> 64 word \<Rightarrow> json" where
  "make_request request_params tx_hash height bhash block_timestamp_us =
     JDict
       [(''transactions'',
           JList [JDict [(''method'', JStr ''icx_sendTransaction''),
                         (''params'', JDict (AList.update ''txHash'' (JStr tx_hash) request_params))]]),
        (''block'',
           JDict [(''blockHeight'', JInt height),
                  (''blockHash'', JStr bhash),
                  (''timestamp'', JInt (uint block_timestamp_us))])]"

definition icx_sendTransaction ::
  "server \<Rightarrow> world \<Rightarrow> (string \<times> json) list \<Rightarrow> (exn + json) \<times> server" where
  "icx_sendTransaction s w request_params =
     (case validate_jsonrpc_message (validate w) of
        Inl e \<Rightarrow> (Inl e, s)
      | Inr _ \<Rightarrow>
          (case get_block_height s of
             (height, s1) \<Rightarrow>
               let req = make_request request_params (params_hash w) height (time_hash w) (time_us w);
                   s2 = s1\<lparr>backend_calls := backend_calls s1 @ [Icx_send_transaction req]\<rparr>
               in
               (case execute w of
                  Inl e \<Rightarrow> (Inl e, s2)
                | Inr response \<Rightarrow>
                    (case precommit_decision response of
                       Inl e \<Rightarrow> (Inl e, s2)
                     | Inr call \<Rightarrow>
                         let s3 = s2\<lparr>backend_calls := backend_calls s2 @ [call]\<rparr> in
                         (case finalize w of
                            Some e \<Rightarrow> (Inl e, s3)
                          | None \<Rightarrow> response_to_json s3 response)))))"

text \<open>\<^verbatim>\<open>icx_getTransactionResult\<close>: every exception of the two lookups is caught and
  replaced.\<close>

definition icx_getTransactionResult :: "server \<Rightarrow> (string \<times> json) list \<Rightarrow> exn + json" where
  "icx_getTransactionResult s request_params =
     (case (case py_getitem (JDict request_params) ''txHash'' of
              Inl e \<Rightarrow> Inl e
            | Inr tx_hash \<Rightarrow> getitem (tx_result_mapper s) tx_hash) of
        Inl _ \<Rightarrow>
          Inl (GenericJsonRpcServerError (JInt InvalidParams_code)
                 (JStr ''TransactionResult not found'') HTTP_BAD_REQUEST)
      | Inr tx_result \<Rightarrow> Inr tx_result)"

text \<open>A sequence of calls of \<^verbatim>\<open>icx_sendTransaction\<close>, each with its own parameters and
  its own outside world: the server after the last call.\<close>

fun send_all :: "server \<Rightarrow> (world \<times> (string \<times> json) list) list \<Rightarrow> server" where
  "send_all s [] = s"
| "send_all s ((w, request_params) # calls) =
     send_all (snd (icx_sendTransaction s w request_params)) calls"

text \<open>The block height in a request passed to the backend, and the heights of all
  blocks the backend was given, oldest first.\<close>

definition request_block_height :: "json \<Rightarrow> json option" where
  "request_block_height req =
     (case py_getitem req ''block'' of
        Inl _ \<Rightarrow> None
      | Inr block \<Rightarrow>
          (case py_getitem block ''blockHeight'' of Inl _ \<Rightarrow> None | Inr h \<Rightarrow> Some h))"

fun block_heights :: "backend_call list \<Rightarrow> json option list" where
  "block_heights [] = []"
| "block_heights (Icx_send_transaction req # cs) = request_block_height req # block_heights cs"
| "block_heights (_ # cs) = block_heights cs"

section \<open>The HTTP endpoint\<close>

text \<open>
  \<^verbatim>\<open>MockDispatcher.dispatch\<close>. The body of the request is bytes; what matters of it is
  what \<^verbatim>\<open>request.body.decode()\<close> and \<^verbatim>\<open>json.loads\<close> do: the bytes are not UTF-8
  (\<^verbatim>\<open>UnicodeDecodeError\<close>), or they are text that is not JSON (\<^verbatim>\<open>JSONDecodeError\<close>), or
  they are the text of a value.
\<close>

datatype request_body = NotUnicode | NotJson | Json json

definition PARSE_ERROR_RESPONSE :: string where
  \<open>PARSE_ERROR_RESPONSE =
     ''{"jsonrpc":"2.0", "error":{"code":-32700, "message": "Parse error"}, "id": "null"}''\<close>

text \<open>The statements under \<^verbatim>\<open>try\<close>. \<^verbatim>\<open>request.json\<close> is the body parsed once more.\<close>

definition load_request :: "request_body \<Rightarrow> exn + json" where
  "load_request body =
     (case body of
        NotUnicode \<Rightarrow> Inl UnicodeDecodeError
      | NotJson \<Rightarrow> Inl JSONDecodeError
      | Json req \<Rightarrow>
          (case req of
             JDict members \<Rightarrow>
               let params = (case map_of members ''params'' of None \<Rightarrow> JDict [] | Some p \<Rightarrow> p);
                   members1 = AList.update ''params'' params members
               in
               (case py_getitem (JDict members) ''method'' of
                  Inl e \<Rightarrow> Inl e
                | Inr method \<Rightarrow>
                    (case params of
                       JDict ps \<Rightarrow>
                         Inr (JDict (AList.update ''params''
                                (JDict (AList.update ''method'' method ps)) members1))
                     | _ \<Rightarrow> Inl TypeError))
           | _ \<Rightarrow> Inl AttributeError))"

text \<open>
  The response object of \<^verbatim>\<open>jsonrpcserver\<close>: a dict with the member \<^verbatim>\<open>result\<close> or \<^verbatim>\<open>error\<close>,
  and the attribute \<^verbatim>\<open>http_status\<close>. \<^verbatim>\<open>sanic_response.json(body, status)\<close> makes the HTTP
  response whose text is \<^verbatim>\<open>body\<close> serialised as JSON.
\<close>

record rpc_response =
  members :: "(string \<times> json) list"
  http_status :: int

datatype http_response = HTTPResponse json int

text \<open>\<^verbatim>\<open>isinstance(v, (dict, list, int))\<close>\<close>

definition is_dict_list_int :: "json \<Rightarrow> bool" where
  "is_dict_list_int v =
     (case v of JDict _ \<Rightarrow> True | JList _ \<Rightarrow> True | JInt _ \<Rightarrow> True | JBool _ \<Rightarrow> True | _ \<Rightarrow> False)"

text \<open>The statements under \<^verbatim>\<open>else\<close>, after \<^verbatim>\<open>methods.dispatch\<close> has returned \<^verbatim>\<open>res\<close>.\<close>

definition shape_response :: "rpc_response \<Rightarrow> http_response" where
  "shape_response res =
     (let res1 =
        (case map_of (members res) ''result'' of
           None \<Rightarrow> res
         | Some r \<Rightarrow>
             if is_dict_list_int r
             then res\<lparr>members := AList.update ''result'' (integers_to_hex r) (members res)\<rparr>
             else res)
      in HTTPResponse (JDict (members res1)) (http_status res1))"

text \<open>\<^verbatim>\<open>dispatch\<close>, with the library's \<^verbatim>\<open>methods.dispatch\<close> as the function
  \<open>methods_dispatch\<close>.\<close>

definition dispatch :: "(json \<Rightarrow> rpc_response) \<Rightarrow> request_body \<Rightarrow> exn + http_response" where
  "dispatch methods_dispatch body =
     (case load_request body of
        Inl e \<Rightarrow>
          if e = JSONDecodeError then Inr (HTTPResponse (JStr PARSE_ERROR_RESPONSE) 400)
          else Inl e
      | Inr req \<Rightarrow> Inr (shape_response (methods_dispatch req)))"

section \<open>Notions of the specification and sample inputs\<close>

text \<open>
  Following the specification's words on the backend's replies: the status field of the
  first entry of a list reply (a success-status list has the status \<^verbatim>\<open>1\<close>, a
  failure-status list another one), and whether a reply is a list at all.
\<close>

definition first_status :: "json \<Rightarrow> json option" where
  "first_status response =
     (case response of JList (JDict kvs # _) \<Rightarrow> map_of kvs ''status'' | _ \<Rightarrow> None)"

definition is_list :: "json \<Rightarrow> bool" where
  "is_list v = (case v of JList _ \<Rightarrow> True | _ \<Rightarrow> False)"

text \<open>
  Following the specification's words on insertion order, ``for a key inserted multiple
  times, its position is its most recent insertion'': the position, counted from 0, of the
  last occurrence of a key in the sequence of the keys that were put.
\<close>

fun last_insertion :: "json list \<Rightarrow> json \<Rightarrow> nat option" where
  "last_insertion [] k = None"
| "last_insertion (x # xs) k =
     (case last_insertion xs k of
        Some i \<Rightarrow> Some (Suc i)
      | None \<Rightarrow> if x = k then Some 0 else None)"

text \<open>No call of \<^verbatim>\<open>put\<close> in the sequence raises.\<close>

fun puts_ok :: "TxResultMapper \<Rightarrow> (json \<times> json) list \<Rightarrow> bool" where
  "puts_ok m [] = True"
| "puts_ok m ((key, val) # kvs) =
     (case put m key val of (Inl _, _) \<Rightarrow> False | (Inr _, m1) \<Rightarrow> puts_ok m1 kvs)"

text \<open>The error of \<^verbatim>\<open>icx_getTransactionResult\<close>.\<close>

definition not_found :: exn where
  "not_found =
     GenericJsonRpcServerError (JInt InvalidParams_code) (JStr ''TransactionResult not found'')
       HTTP_BAD_REQUEST"

text \<open>The keys \<^verbatim>\<open>0, 1, 0, 2, 3, ..., 1000\<close>: key \<^verbatim>\<open>0\<close> is put again after key \<^verbatim>\<open>1\<close>.\<close>

definition reinserted_keys :: "(json \<times> json) list" where
  "reinserted_keys = int_keys 0 2 @ int_keys 0 1 @ int_keys 2 1001"

text \<open>Two results for a cache of capacity 1.\<close>

definition small_puts :: "(json \<times> json) list" where
  "small_puts = [(JStr ''0xa'', JInt 1), (JStr ''0xb'', JInt 2)]"

text \<open>A transaction, the result the backend gives for it, and two outside worlds: the
  backend commits; the validator rejects.\<close>

definition sample_params :: "(string \<times> json) list" where
  "sample_params = [(''from'', JStr ''hxA''), (''to'', JStr ''hxB''), (''value'', JStr ''0x10'')]"

definition sample_result :: json where
  "sample_result = JDict [(''txHash'', JStr ''0xabc''), (''status'', JInt 1)]"

definition committed_world :: world where
  "committed_world =
     \<lparr>validate = Valid, params_hash = ''0xabc'', time_us = 1, time_hash = ''0xdef'',
      execute = Inr (JList [sample_result]), finalize = None\<rparr>"

definition rejected_world :: world where
  "rejected_world =
     \<lparr>validate = IconServiceBaseException 32602 ''missing to'', params_hash = ''0xabc'',
      time_us = 1, time_hash = ''0xdef'', execute = Inr (JList [sample_result]),
      finalize = None\<rparr>"

text \<open>The server after the committed transaction.\<close>

definition committed_server :: server where
  "committed_server = snd (icx_sendTransaction server_init committed_world sample_params)"

text \<open>A nested result, and a dispatch whose handler returns the bare integer \<^verbatim>\<open>5\<close>.\<close>

definition nested_result :: json where
  "nested_result =
     JDict [(''status'', JInt 1),
            (''logs'', JList [JDict [(''amount'', JInt 255), (''to'', JStr ''0xff'')]])]"

definition total_supply_request :: json where
  "total_supply_request =
     JDict [(''jsonrpc'', JStr ''2.0''), (''method'', JStr ''icx_getTotalSupply''),
            (''id'', JInt 1)]"

definition total_supply_response :: rpc_response where
  "total_supply_response =
     \<lparr>members = [(''jsonrpc'', JStr ''2.0''), (''result'', JInt 5), (''id'', JInt 1)],
      http_status = 200\<rparr>"

section \<open>Properties of the integer normalisation\<close>

lemma integers_to_hex_JDict:
  "integers_to_hex (JDict kvs) = JDict (map (\<lambda>(k, v). (k, hex_item v)) kvs)"
  by (simp add: hex_item_def)

lemma integers_to_hex_JList: "integers_to_hex (JList xs) = JList (map hex_item xs)"
  by (simp add: hex_item_def)

lemma hex_item_container:
  "hex_item (JDict kvs) = integers_to_hex (JDict kvs)"
  "hex_item (JList xs) = integers_to_hex (JList xs)"
  by (simp_all add: hex_item_def)

lemma hex_item_idem: "hex_item (hex_item v) = hex_item v"
proof (induction v)
  case (JList xs)
  then show ?case by (simp add: hex_item_def)
next
  case (JDict kvs)
  then show ?case by (fastforce simp add: hex_item_def)
qed (simp_all add: hex_item_def)

lemma integers_to_hex_idem: "integers_to_hex (integers_to_hex v) = integers_to_hex v"
proof (cases v)
  case (JList xs)
  then show ?thesis
    using hex_item_idem [of v] by (simp add: hex_item_def)
next
  case (JDict kvs)
  then show ?thesis
    using hex_item_idem [of v] by (simp add: hex_item_def)
qed simp_all

lemma map_of_hex_items:
  "map_of (map (\<lambda>(k, v). (k, hex_item v)) kvs) k = map_option hex_item (map_of kvs k)"
  by (induction kvs) auto

text \<open>At every position, an item after the rewriting is the rewritten item.\<close>

lemma json_at_hex_item: "json_at (hex_item v) p = map_option hex_item (json_at v p)"
proof (induction p arbitrary: v)
  case Nil
  show ?case by simp
next
  case (Cons st p)
  show ?case
  proof (cases v)
    case (JDict kvs)
    show ?thesis
    proof (cases st)
      case (Key k)
      with Cons.IH show ?thesis
        by (simp add: JDict hex_item_container integers_to_hex_JDict map_of_hex_items
            del: integers_to_hex.simps split: option.splits)
    next
      case (Idx i)
      then show ?thesis
        by (simp add: JDict hex_item_container integers_to_hex_JDict del: integers_to_hex.simps)
    qed
  next
    case (JList xs)
    show ?thesis
    proof (cases st)
      case (Key k)
      then show ?thesis
        by (simp add: JList hex_item_container integers_to_hex_JList del: integers_to_hex.simps)
    next
      case (Idx i)
      with Cons.IH show ?thesis
        by (simp add: JList hex_item_container integers_to_hex_JList del: integers_to_hex.simps)
    qed
  qed (simp_all add: hex_item_def)
qed

lemma json_at_integers_to_hex:
  assumes "json_at v p = Some x" and "p \<noteq> [] \<or> (\<exists>s. x = JStr s)"
  shows "json_at (integers_to_hex v) p = Some (hex_item x)"
proof -
  have "hex_item v = integers_to_hex v"
  proof (cases p)
    case Nil
    with assms show ?thesis by (auto simp: hex_item_def)
  next
    case (Cons st q)
    with assms(1) show ?thesis by (cases v) (simp_all add: hex_item_def)
  qed
  with json_at_hex_item [of v p] assms(1) show ?thesis by simp
qed

text \<open>Inside a dict or a list every integer, at any depth, is rewritten; this is the part
  of the post-processing that holds for every result.\<close>

lemma integers_to_hex_leaves:
  assumes "p \<noteq> []" and "json_at v p = Some (JInt n)"
  shows "json_at (integers_to_hex v) p = Some (JStr (hex n))"
  using json_at_integers_to_hex [OF assms(2)] assms(1) by (simp add: hex_item_def)

text \<open>
  Claim C9. The normalisation is idempotent: applied to a value it has already
  normalised, \<^verbatim>\<open>integers_to_hex\<close> returns that value unchanged. It reaches every depth: an
  integer found at any position below the top of a value is, at the same position of the
  result, the string \<^verbatim>\<open>hex\<close> gives for it, and a string found at any position is still
  that string (so a hex string is not converted again).
\<close>

theorem integers_to_hex_idempotent_deep:
  "integers_to_hex (integers_to_hex v) = integers_to_hex v \<and>
   (\<forall>p n. p \<noteq> [] \<and> json_at v p = Some (JInt n) \<longrightarrow>
      json_at (integers_to_hex v) p = Some (JStr (hex n))) \<and>
   (\<forall>p s. json_at v p = Some (JStr s) \<longrightarrow> json_at (integers_to_hex v) p = Some (JStr s))"
proof (intro conjI allI impI)
  show "integers_to_hex (integers_to_hex v) = integers_to_hex v"
    by (rule integers_to_hex_idem)
next
  fix p n
  assume "p \<noteq> [] \<and> json_at v p = Some (JInt n)"
  then show "json_at (integers_to_hex v) p = Some (JStr (hex n))"
    by (intro integers_to_hex_leaves) simp_all
next
  fix p s
  assume "json_at v p = Some (JStr s)"
  then have "json_at (integers_to_hex v) p = Some (hex_item (JStr s))"
    by (intro json_at_integers_to_hex) simp_all
  then show "json_at (integers_to_hex v) p = Some (JStr s)"
    by (simp add: hex_item_def)
qed

text \<open>Claim C9 at a nested result: the amount \<^verbatim>\<open>255\<close> inside a dict inside a list inside a
  dict, and the hex string beside it.\<close>

theorem integers_to_hex_idempotent_deep_witness:
  "json_at nested_result [Key ''logs'', Idx 0, Key ''amount''] = Some (JInt 255) \<and>
   json_at (integers_to_hex nested_result) [Key ''logs'', Idx 0, Key ''amount'']
     = Some (JStr (hex 255)) \<and>
   json_at nested_result [Key ''logs'', Idx 0, Key ''to''] = Some (JStr ''0xff'') \<and>
   json_at (integers_to_hex nested_result) [Key ''logs'', Idx 0, Key ''to'']
     = Some (JStr ''0xff'') \<and>
   integers_to_hex (integers_to_hex nested_result) = integers_to_hex nested_result"
proof -
  have a: "json_at nested_result [Key ''logs'', Idx 0, Key ''amount''] = Some (JInt 255)"
    by (simp add: nested_result_def)
  have b: "json_at nested_result [Key ''logs'', Idx 0, Key ''to''] = Some (JStr ''0xff'')"
    by (simp add: nested_result_def)
  note t = integers_to_hex_idempotent_deep [of nested_result]
  from t a have "json_at (integers_to_hex nested_result) [Key ''logs'', Idx 0, Key ''amount'']
     = Some (JStr (hex 255))"
    by blast
  moreover from t b have "json_at (integers_to_hex nested_result) [Key ''logs'', Idx 0, Key ''to'']
     = Some (JStr ''0xff'')"
    by blast
  moreover from t have "integers_to_hex (integers_to_hex nested_result) = integers_to_hex nested_result"
    by blast
  ultimately show ?thesis using a b by blast
qed

lemma hex_255: "hex 255 = ''0xff''"
  by code_simp

section \<open>Properties of the HTTP endpoint\<close>

text \<open>
  Claim C5, at the input where the code departs from it. The handler's result is the bare
  integer \<^verbatim>\<open>5\<close>; \<^verbatim>\<open>dispatch\<close> passes it to \<^verbatim>\<open>integers_to_hex\<close>, which has no branch for an
  integer argument, and the response carries \<^verbatim>\<open>5\<close>, not \<^verbatim>\<open>'0x5'\<close>.
\<close>

theorem dispatch_bare_integer_unchanged:
  "dispatch (\<lambda>req. total_supply_response) (Json total_supply_request) =
     Inr (HTTPResponse
            (JDict [(''jsonrpc'', JStr ''2.0''), (''result'', JInt 5), (''id'', JInt 1)]) 200)"
  by (simp add: dispatch_def load_request_def shape_response_def total_supply_request_def
      total_supply_response_def py_getitem_def is_dict_list_int_def)

text \<open>A body that is text but not JSON gets the status 400 and the fixed text, passed to
  \<^verbatim>\<open>sanic_response.json\<close> as a Python string.\<close>

lemma dispatch_not_json:
  "dispatch methods_dispatch NotJson = Inr (HTTPResponse (JStr PARSE_ERROR_RESPONSE) 400)"
  by (simp add: dispatch_def load_request_def)

text \<open>
  Claim C6, at the input where the code departs from it. A body that is not UTF-8 cannot
  be decoded as JSON; \<^verbatim>\<open>request.body.decode()\<close> raises \<^verbatim>\<open>UnicodeDecodeError\<close>, which
  \<^verbatim>\<open>except JSONDecodeError\<close> does not catch, so \<^verbatim>\<open>dispatch\<close> raises and returns no
  response.
\<close>

theorem dispatch_not_unicode_raises:
  "dispatch methods_dispatch NotUnicode = Inl UnicodeDecodeError"
  by (simp add: dispatch_def load_request_def)

section \<open>Properties of the result cache\<close>

subsection \<open>Association lists and the integer keys\<close>

lemma update_fresh: "k \<notin> fst ` set al \<Longrightarrow> AList.update k v al = al @ [(k, v)]"
  by (induction al) auto

lemma length_update_le: "length (AList.update k v al) \<le> Suc (length al)"
  by (induction al) auto

lemma length_delete_less:
  "k \<in> fst ` set al \<Longrightarrow> length (AList.delete k al) < length al"
proof (induction al)
  case Nil
  then show ?case by simp
next
  case (Cons p al)
  show ?case
  proof (cases "fst p = k")
    case True
    then show ?thesis by (simp add: AList.length_delete_le less_Suc_eq_le)
  next
    case False
    with Cons.prems have "k \<in> fst ` set al" by auto
    from Cons.IH [OF this] False show ?thesis by simp
  qed
qed

lemma py_key_JInt: "py_key (JInt i) = Some (JInt i)"
  by (simp add: py_key_def)

lemma int_keys_keys: "map fst (int_keys lo hi) = map (\<lambda>i. JInt (int i)) [lo..<hi]"
  by (simp add: int_keys_def comp_def)

lemma int_keys_py_key: "\<forall>k \<in> fst ` set (int_keys lo hi). py_key k = Some k"
  by (auto simp: int_keys_def py_key_def)

lemma int_keys_distinct: "distinct (map fst (int_keys lo hi))"
  by (simp add: int_keys_keys distinct_map inj_on_def)

lemma int_keys_member:
  "JInt i \<in> fst ` set (int_keys lo hi) \<longleftrightarrow> int lo \<le> i \<and> i < int hi"
proof
  assume "JInt i \<in> fst ` set (int_keys lo hi)"
  then show "int lo \<le> i \<and> i < int hi" by (auto simp: int_keys_def)
next
  assume "int lo \<le> i \<and> i < int hi"
  then have "nat i \<in> set [lo..<hi]" and "int (nat i) = i" by auto
  then have "JInt i \<in> (\<lambda>n. JInt (int n)) ` set [lo..<hi]" by (metis imageI)
  then show "JInt i \<in> fst ` set (int_keys lo hi)"
    by (simp add: int_keys_def image_image)
qed

lemma length_int_keys: "length (int_keys lo hi) = hi - lo"
  by (simp add: int_keys_def)

lemma int_keys_split:
  "lo \<le> mid \<Longrightarrow> mid \<le> hi \<Longrightarrow> int_keys lo hi = int_keys lo mid @ int_keys mid hi"
  using upt_add_eq_append [of lo mid "hi - mid"] by (simp add: int_keys_def)

lemma int_keys_single: "int_keys lo (Suc lo) = [(JInt (int lo), JNull)]"
  by (simp add: int_keys_def)

subsection \<open>One call of put\<close>

lemma check_limit_below: "len m \<le> limit_capacity m \<Longrightarrow> check_limit m = (Inr (), m)"
  by (simp add: check_limit_def)

lemma put_below:
  assumes "len m \<le> limit_capacity m" and "py_key key = Some k"
  shows "put m key val =
    (Inr (), m\<lparr>key_list := key_list m @ [key], mapper := AList.update k val (mapper m)\<rparr>)"
  using assms by (simp add: put_def check_limit_below)

lemma put_evict:
  assumes "len m > limit_capacity m" and "key_list m = oldest # rest"
    and "py_key oldest = Some h" and "h \<in> fst ` set (mapper m)" and "py_key key = Some k"
  shows "put m key val =
    (Inr (), m\<lparr>key_list := rest @ [key],
               mapper := AList.update k val (AList.delete h (mapper m))\<rparr>)"
  using assms by (simp add: put_def check_limit_def)

lemma put_evict_absent:
  assumes "len m > limit_capacity m" and "key_list m = oldest # rest"
    and "py_key oldest = Some h" and "h \<notin> fst ` set (mapper m)"
  shows "put m key val = (Inl KeyError, m\<lparr>key_list := rest\<rparr>)"
  using assms by (simp add: put_def check_limit_def)

text \<open>A call that returns either found room or evicted the key at the head of the list.\<close>

lemma put_ok_cases:
  assumes "put m key val = (Inr u, m1)"
  obtains (below) k where "len m \<le> limit_capacity m" and "py_key key = Some k"
      and "m1 = m\<lparr>key_list := key_list m @ [key], mapper := AList.update k val (mapper m)\<rparr>"
    | (evict) oldest rest h k where "len m > limit_capacity m" and "key_list m = oldest # rest"
      and "py_key oldest = Some h" and "h \<in> fst ` set (mapper m)" and "py_key key = Some k"
      and "m1 = m\<lparr>key_list := rest @ [key],
             mapper := AList.update k val (AList.delete h (mapper m))\<rparr>"
proof (cases "len m > limit_capacity m")
  case False
  with assms obtain k where "py_key key = Some k"
    and "m1 = m\<lparr>key_list := key_list m @ [key], mapper := AList.update k val (mapper m)\<rparr>"
    by (auto simp: put_def check_limit_def Let_def split: option.splits)
  with False show ?thesis by (intro below) simp_all
next
  case True
  with assms obtain oldest rest h k where "key_list m = oldest # rest"
    and "py_key oldest = Some h" and "h \<in> fst ` set (mapper m)" and "py_key key = Some k"
    and "m1 = m\<lparr>key_list := rest @ [key],
           mapper := AList.update k val (AList.delete h (mapper m))\<rparr>"
    by (auto simp: put_def check_limit_def Let_def split: option.splits list.splits if_splits)
  with True show ?thesis by (intro evict) simp_all
qed

lemma check_limit_limit: "limit_capacity (snd (check_limit m)) = limit_capacity m"
  by (simp add: check_limit_def Let_def split: list.splits option.splits)

lemma put_limit: "limit_capacity (snd (put m key val)) = limit_capacity m"
proof -
  obtain r m1 where c: "check_limit m = (r, m1)" by (cases "check_limit m")
  with check_limit_limit [of m] have "limit_capacity m1 = limit_capacity m" by simp
  with c show ?thesis
    by (cases r) (simp_all add: put_def Let_def split: option.splits)
qed

lemma put_all_limit: "limit_capacity (put_all m kvs) = limit_capacity m"
  by (induction kvs arbitrary: m) (auto simp: put_limit)

text \<open>\<^verbatim>\<open>get\<close> returns for every hashable key.\<close>

lemma get_returns: "py_key key = Some k \<Longrightarrow> \<exists>v. get m key = Inr v"
  by (simp add: get_def)

subsection \<open>The size of the dict\<close>

lemma check_limit_len:
  assumes "len m \<le> limit_capacity m + 1" and "check_limit m = (Inr u, m1)"
  shows "len m1 \<le> limit_capacity m"
proof (cases "len m > limit_capacity m")
  case False
  with assms show ?thesis by (simp add: check_limit_def)
next
  case True
  with assms(2) obtain key rest k where "key_list m = key # rest" and "py_key key = Some k"
    and k: "k \<in> fst ` set (mapper m)"
    and m1: "m1 = m\<lparr>key_list := rest, mapper := AList.delete k (mapper m)\<rparr>"
    by (auto simp: check_limit_def Let_def split: list.splits option.splits if_splits)
  from length_delete_less [OF k] assms(1) show ?thesis
    by (simp add: m1 len_def)
qed

lemma put_len_bound:
  assumes "len m \<le> limit_capacity m + 1"
  shows "len (snd (put m key val)) \<le> limit_capacity m + 1"
proof -
  obtain r m1 where c: "check_limit m = (r, m1)" by (cases "check_limit m")
  show ?thesis
  proof (cases r)
    case (Inl e)
    have "mapper m1 = mapper m"
      using c Inl by (auto simp: check_limit_def Let_def split: list.splits option.splits if_splits)
    with assms show ?thesis by (simp add: put_def c Inl len_def)
  next
    case (Inr u)
    from check_limit_len [OF assms c [unfolded Inr]] have le: "len m1 \<le> limit_capacity m" .
    have "int (length (AList.update k val (mapper m1))) \<le> limit_capacity m + 1" for k
    proof -
      have "int (length (AList.update k val (mapper m1))) \<le> int (length (mapper m1)) + 1"
        using length_update_le [of k val "mapper m1"] by simp
      also have "\<dots> \<le> limit_capacity m + 1"
        using le by (simp add: len_def)
      finally show ?thesis .
    qed
    with le show ?thesis
      by (simp add: put_def c Inr Let_def len_def split: option.splits)
  qed
qed

text \<open>What the test \<^verbatim>\<open>self.len() > self.__limit_capacity\<close> does guarantee: never more
  than one entry above the capacity.\<close>

lemma put_all_len_bound:
  "len m \<le> limit_capacity m + 1 \<Longrightarrow> len (put_all m kvs) \<le> limit_capacity m + 1"
proof (induction kvs arbitrary: m)
  case Nil
  then show ?case by simp
next
  case (Cons kv kvs)
  obtain key val where kv: "kv = (key, val)" by (cases kv)
  from Cons.IH [of "snd (put m key val)"] put_len_bound [OF Cons.prems, of key val]
  show ?case by (simp add: kv put_limit)
qed

subsection \<open>Sequences of calls\<close>

lemma put_all_append: "put_all m (xs @ ys) = put_all (put_all m xs) ys"
  by (induction xs arbitrary: m) auto

text \<open>New keys put while there is room are appended to the dict and to the list.\<close>

lemma put_all_fill:
  assumes "\<forall>k \<in> fst ` set kvs. py_key k = Some k"
    and "distinct (map fst kvs)"
    and "fst ` set kvs \<inter> fst ` set (mapper m) = {}"
    and "len m + int (length kvs) \<le> limit_capacity m + 1"
  shows "put_all m kvs =
    m\<lparr>key_list := key_list m @ map fst kvs, mapper := mapper m @ kvs\<rparr>"
  using assms
proof (induction kvs arbitrary: m)
  case Nil
  then show ?case by simp
next
  case (Cons kv kvs)
  obtain key val where kv: "kv = (key, val)" by (cases kv)
  let ?m1 = "m\<lparr>key_list := key_list m @ [key], mapper := mapper m @ [(key, val)]\<rparr>"
  from Cons.prems kv have key: "py_key key = Some key" and fresh: "key \<notin> fst ` set (mapper m)"
    and below: "len m \<le> limit_capacity m"
    by auto
  have step: "put m key val = (Inr (), ?m1)"
    by (simp add: put_below [OF below key] update_fresh [OF fresh])
  have "put_all ?m1 kvs =
    ?m1\<lparr>key_list := key_list ?m1 @ map fst kvs, mapper := mapper ?m1 @ kvs\<rparr>"
  proof (rule Cons.IH)
    show "\<forall>k \<in> fst ` set kvs. py_key k = Some k" using Cons.prems(1) by simp
    show "distinct (map fst kvs)" using Cons.prems(2) by simp
    show "fst ` set kvs \<inter> fst ` set (mapper ?m1) = {}"
      using Cons.prems(2,3) kv by auto
    show "len ?m1 + int (length kvs) \<le> limit_capacity ?m1 + 1"
      using Cons.prems(4) by (simp add: len_def)
  qed
  then show ?case by (simp add: kv step)
qed

text \<open>While no call raises, the list of keys is the sequence of the keys put, without the
  entries that evictions have consumed at its head.\<close>

lemma puts_ok_key_list:
  "puts_ok m kvs \<Longrightarrow>
     \<exists>e. key_list (put_all m kvs) = drop e (key_list m @ map fst kvs)"
proof (induction kvs arbitrary: m)
  case Nil
  show ?case by (intro exI [of _ 0]) simp
next
  case (Cons kv kvs)
  obtain key val where kv: "kv = (key, val)" by (cases kv)
  from Cons.prems obtain u m1 where p: "put m key val = (Inr u, m1)" and ok: "puts_ok m1 kvs"
    by (auto simp: kv split: prod.splits sum.splits)
  from Cons.IH [OF ok] obtain e
    where e: "key_list (put_all m1 kvs) = drop e (key_list m1 @ map fst kvs)"
    by blast
  from p have "\<exists>d. key_list m1 @ map fst kvs = drop d (key_list m @ map fst (kv # kvs))"
  proof (cases rule: put_ok_cases)
    case (below k)
    then have "key_list m1 @ map fst kvs = drop 0 (key_list m @ map fst (kv # kvs))"
      by (simp add: kv)
    then show ?thesis by blast
  next
    case (evict oldest rest h k)
    then have "key_list m1 @ map fst kvs = drop 1 (key_list m @ map fst (kv # kvs))"
      by (simp add: kv)
    then show ?thesis by blast
  qed
  then obtain d where "key_list m1 @ map fst kvs = drop d (key_list m @ map fst (kv # kvs))"
    by blast
  with e have "key_list (put_all m1 kvs) = drop e (drop d (key_list m @ map fst (kv # kvs)))"
    by (simp only:)
  then have "key_list (put_all m1 kvs) = drop (e + d) (key_list m @ map fst (kv # kvs))"
    by (simp only: drop_drop)
  with p show ?case by (auto simp: kv)
qed

lemma last_insertion_absent: "k \<notin> set xs \<Longrightarrow> last_insertion xs k = None"
  by (induction xs) auto

lemma last_insertion_append_absent:
  "k \<notin> set ys \<Longrightarrow> last_insertion (xs @ ys) k = last_insertion xs k"
  by (induction xs) (auto simp: last_insertion_absent)

subsection \<open>The claims on the cache\<close>

lemma fill_init:
  assumes "int n \<le> limit + 1"
  shows "put_all (TxResultMapper_init limit) (int_keys 0 n) =
    \<lparr>limit_capacity = limit, mapper = int_keys 0 n, key_list = map fst (int_keys 0 n)\<rparr>"
proof -
  let ?m = "TxResultMapper_init limit"
  have "put_all ?m (int_keys 0 n) =
    ?m\<lparr>key_list := key_list ?m @ map fst (int_keys 0 n), mapper := mapper ?m @ int_keys 0 n\<rparr>"
  proof (rule put_all_fill)
    show "\<forall>k \<in> fst ` set (int_keys 0 n). py_key k = Some k" by (rule int_keys_py_key)
    show "distinct (map fst (int_keys 0 n))" by (rule int_keys_distinct)
    show "fst ` set (int_keys 0 n) \<inter> fst ` set (mapper ?m) = {}"
      by (simp add: TxResultMapper_init_def)
    show "len ?m + int (length (int_keys 0 n)) \<le> limit_capacity ?m + 1"
      using assms by (simp add: len_def length_int_keys TxResultMapper_init_def)
  qed
  then show ?thesis by (simp add: TxResultMapper_init_def)
qed

text \<open>
  Claim C2, at the input where the code departs from it. On a cache of capacity 1000,
  1001 calls of \<^verbatim>\<open>put\<close> with the distinct keys \<^verbatim>\<open>0, ..., 1000\<close> leave 1001 entries:
  \<^verbatim>\<open>__check_limit\<close> runs before the insertion and tests \<^verbatim>\<open>len() > limit\<close>, so the call that
  finds 1000 entries adds one more.
\<close>

theorem cache_exceeds_capacity:
  "len (put_all (TxResultMapper_init 1000) (int_keys 0 1001)) = 1001"
  by (simp add: fill_init len_def length_int_keys)

text \<open>The bound the code does keep, for the cache of the server.\<close>

lemma cache_at_most_capacity_plus_one:
  "len (put_all (TxResultMapper_init 1000) kvs) \<le> 1001"
  using put_all_len_bound [of "TxResultMapper_init 1000" kvs]
  by (simp add: TxResultMapper_init_def len_def)

lemma fill_1000:
  "put_all \<lparr>limit_capacity = 1000, mapper = [(JInt 0, JNull)], key_list = kl\<rparr> (int_keys 1 1001) =
     \<lparr>limit_capacity = 1000, mapper = (JInt 0, JNull) # int_keys 1 1001,
      key_list = kl @ map fst (int_keys 1 1001)\<rparr>"
proof -
  let ?m = "\<lparr>limit_capacity = 1000, mapper = [(JInt 0, JNull)], key_list = kl\<rparr>"
  have "put_all ?m (int_keys 1 1001) =
    ?m\<lparr>key_list := key_list ?m @ map fst (int_keys 1 1001), mapper := mapper ?m @ int_keys 1 1001\<rparr>"
  proof (rule put_all_fill)
    show "\<forall>k \<in> fst ` set (int_keys 1 1001). py_key k = Some k" by (rule int_keys_py_key)
    show "distinct (map fst (int_keys 1 1001))" by (rule int_keys_distinct)
    show "fst ` set (int_keys 1 1001) \<inter> fst ` set (mapper ?m) = {}"
      by (simp add: int_keys_member)
    show "len ?m + int (length (int_keys 1 1001)) \<le> limit_capacity ?m + 1"
      by (simp add: len_def length_int_keys)
  qed
  then show ?thesis by simp
qed

text \<open>
  Claim C10, at the input where the code departs from it. On the cache of the server the
  key \<^verbatim>\<open>0\<close> is put twice, then the keys \<^verbatim>\<open>1, ..., 1001\<close>: the call with key \<^verbatim>\<open>1001\<close> evicts
  key \<^verbatim>\<open>0\<close> by its first entry in the list. The next call of \<^verbatim>\<open>put\<close> reads the second
  entry of key \<^verbatim>\<open>0\<close>, and \<^verbatim>\<open>del self.__mapper[key]\<close> raises \<^verbatim>\<open>KeyError\<close>.
\<close>

theorem put_raises_on_stale_log_entry:
  "fst (put (put_all (TxResultMapper_init 1000) (int_keys 0 1 @ int_keys 0 1002))
         (JInt 1002) JNull) = Inl KeyError"
proof -
  let ?m2 = "\<lparr>limit_capacity = 1000, mapper = [(JInt 0, JNull)], key_list = [JInt 0, JInt 0]\<rparr>"
  let ?m3 = "\<lparr>limit_capacity = 1000, mapper = (JInt 0, JNull) # int_keys 1 1001,
      key_list = [JInt 0, JInt 0] @ map fst (int_keys 1 1001)\<rparr>"
  let ?m4 = "\<lparr>limit_capacity = 1000, mapper = int_keys 1 1001 @ [(JInt 1001, JNull)],
      key_list = JInt 0 # map fst (int_keys 1 1001) @ [JInt 1001]\<rparr>"
  have seq: "int_keys 0 1 @ int_keys 0 1002 =
      int_keys 0 1 @ int_keys 0 1 @ int_keys 1 1001 @ int_keys 1001 1002"
    using int_keys_split [of 0 1 1002] int_keys_split [of 1 1001 1002] by simp
  have m2: "put_all (TxResultMapper_init 1000) (int_keys 0 1 @ int_keys 0 1) = ?m2"
    by (simp add: int_keys_def TxResultMapper_init_def put_def check_limit_def len_def py_key_def)
  have m3: "put_all ?m2 (int_keys 1 1001) = ?m3"
    using fill_1000 [of "[JInt 0, JInt 0]"] by simp
  have "put ?m3 (JInt 1001) JNull =
      (Inr (), ?m3\<lparr>key_list := (JInt 0 # map fst (int_keys 1 1001)) @ [JInt 1001],
         mapper := AList.update (JInt 1001) JNull (AList.delete (JInt 0) (mapper ?m3))\<rparr>)"
    by (rule put_evict [where oldest = "JInt 0"])
      (simp_all add: len_def length_int_keys py_key_JInt)
  then have m4: "put_all ?m3 (int_keys 1001 1002) = ?m4"
    by (simp add: int_keys_single [of 1001, simplified] update_fresh int_keys_member)
  have "put ?m4 (JInt 1002) JNull =
      (Inl KeyError, ?m4\<lparr>key_list := map fst (int_keys 1 1001) @ [JInt 1001]\<rparr>)"
    by (rule put_evict_absent [where h = "JInt 0" and oldest = "JInt 0"])
      (simp_all add: len_def length_int_keys py_key_JInt int_keys_member)
  moreover have "put_all (TxResultMapper_init 1000) (int_keys 0 1 @ int_keys 0 1002) = ?m4"
  proof -
    have "put_all (TxResultMapper_init 1000) (int_keys 0 1 @ int_keys 0 1002) =
        put_all (TxResultMapper_init 1000)
          ((int_keys 0 1 @ int_keys 0 1) @ int_keys 1 1001 @ int_keys 1001 1002)"
      by (simp only: seq append_assoc)
    also have "\<dots> = put_all (put_all (put_all (TxResultMapper_init 1000)
        (int_keys 0 1 @ int_keys 0 1)) (int_keys 1 1001)) (int_keys 1001 1002)"
      by (simp only: put_all_append)
    also have "\<dots> = ?m4"
      by (simp only: m2 m3 m4)
    finally show ?thesis .
  qed
  ultimately show ?thesis
    by (simp only: fst_conv)
qed

text \<open>
  Claim C3, as amended. In a run of calls of \<^verbatim>\<open>put\<close> on a new cache in which no call has
  raised, a call that finds the dict above the capacity and returns has removed exactly
  one entry: the entry of the key at the head of the list of keys, which is the key of the
  oldest call whose entry in that list no eviction has consumed yet (\<open>e\<close> entries have
  been consumed). Every other entry is as before, and the new entry is stored.
\<close>

theorem put_evicts_oldest_logged:
  assumes "puts_ok (TxResultMapper_init limit) kvs"
    and "len (put_all (TxResultMapper_init limit) kvs) > limit"
    and "put (put_all (TxResultMapper_init limit) kvs) key val = (Inr (), m')"
  shows "\<exists>e h k. e < length kvs \<and>
           key_list (put_all (TxResultMapper_init limit) kvs) = drop e (map fst kvs) \<and>
           py_key (fst (kvs ! e)) = Some h \<and> py_key key = Some k \<and>
           map_of (mapper (put_all (TxResultMapper_init limit) kvs)) h \<noteq> None \<and>
           map_of (mapper m') =
             ((map_of (mapper (put_all (TxResultMapper_init limit) kvs)))(h := None))(k \<mapsto> val)"
proof -
  let ?m = "put_all (TxResultMapper_init limit) kvs"
  have lim: "limit_capacity ?m = limit"
    by (simp add: put_all_limit TxResultMapper_init_def)
  from puts_ok_key_list [OF assms(1)] obtain e where e: "key_list ?m = drop e (map fst kvs)"
    by (auto simp: TxResultMapper_init_def)
  from assms(3) show ?thesis
  proof (cases rule: put_ok_cases)
    case (below k)
    with assms(2) lim show ?thesis by simp
  next
    case (evict oldest rest h k)
    from evict(2) e have ne: "drop e (map fst kvs) = oldest # rest" by simp
    then have lt: "e < length kvs" by (cases "e < length kvs") auto
    from ne lt have "oldest = fst (kvs ! e)"
      by (metis hd_drop_conv_nth length_map list.sel(1) nth_map)
    moreover from evict(4) have "map_of (mapper ?m) h \<noteq> None"
      by (simp add: map_of_eq_None_iff)
    moreover have "map_of (mapper m') = ((map_of (mapper ?m))(h := None))(k \<mapsto> val)"
      by (simp add: evict(6) AList.update_conv' AList.delete_conv')
    ultimately show ?thesis using lt e evict(3,5) by blast
  qed
qed

text \<open>Claim C3 as amended, on a cache of capacity 1 after two calls: the third call
  evicts the first key.\<close>

theorem put_evicts_oldest_logged_witness:
  "puts_ok (TxResultMapper_init 1) small_puts \<and>
   len (put_all (TxResultMapper_init 1) small_puts) > 1 \<and>
   put (put_all (TxResultMapper_init 1) small_puts) (JStr ''0xc'') (JInt 3) =
     (Inr (), \<lparr>limit_capacity = 1, mapper = [(JStr ''0xb'', JInt 2), (JStr ''0xc'', JInt 3)],
               key_list = [JStr ''0xb'', JStr ''0xc'']\<rparr>) \<and>
   (\<exists>e h k. e < length small_puts \<and>
      key_list (put_all (TxResultMapper_init 1) small_puts) = drop e (map fst small_puts) \<and>
      py_key (fst (small_puts ! e)) = Some h \<and> py_key (JStr ''0xc'') = Some k \<and>
      map_of (mapper (put_all (TxResultMapper_init 1) small_puts)) h \<noteq> None \<and>
      map_of [(JStr ''0xb'', JInt 2), (JStr ''0xc'', JInt 3)] =
        ((map_of (mapper (put_all (TxResultMapper_init 1) small_puts)))(h := None))
          (k \<mapsto> JInt 3))"
proof -
  have ok: "puts_ok (TxResultMapper_init 1) small_puts"
    by (simp add: small_puts_def TxResultMapper_init_def put_def check_limit_def len_def
        py_key_def)
  have over: "len (put_all (TxResultMapper_init 1) small_puts) > 1"
    by (simp add: small_puts_def TxResultMapper_init_def put_def check_limit_def len_def
        py_key_def)
  have third: "put (put_all (TxResultMapper_init 1) small_puts) (JStr ''0xc'') (JInt 3) =
     (Inr (), \<lparr>limit_capacity = 1, mapper = [(JStr ''0xb'', JInt 2), (JStr ''0xc'', JInt 3)],
               key_list = [JStr ''0xb'', JStr ''0xc'']\<rparr>)"
    by (simp add: small_puts_def TxResultMapper_init_def put_def check_limit_def len_def
        py_key_def)
  from put_evicts_oldest_logged [OF ok over third] ok over third show ?thesis
    by simp
qed

text \<open>
  Claim C3, refuted as stated. On the cache of the server the keys
  \<^verbatim>\<open>0, 1, 0, 2, 3, ..., 1000\<close> are put, which fills it with 1001 entries. Key \<^verbatim>\<open>1\<close> was last
  inserted by the second call, key \<^verbatim>\<open>0\<close> by the third, so with positions taken from the
  most recent insertion key \<^verbatim>\<open>1\<close> is older than key \<^verbatim>\<open>0\<close>. The next call of \<^verbatim>\<open>put\<close> returns
  and has removed key \<^verbatim>\<open>0\<close>, while key \<^verbatim>\<open>1\<close> is still there.
\<close>

theorem eviction_ignores_latest_insertion:
  "len (put_all (TxResultMapper_init 1000) reinserted_keys) > 1000 \<and>
   fst (put (put_all (TxResultMapper_init 1000) reinserted_keys) (JInt 1001) JNull) = Inr () \<and>
   map_of (mapper (put_all (TxResultMapper_init 1000) reinserted_keys)) (JInt 0) \<noteq> None \<and>
   map_of (mapper (put_all (TxResultMapper_init 1000) reinserted_keys)) (JInt 1) \<noteq> None \<and>
   last_insertion (map fst reinserted_keys) (JInt 1) = Some 1 \<and>
   last_insertion (map fst reinserted_keys) (JInt 0) = Some 2 \<and>
   map_of (mapper (snd (put (put_all (TxResultMapper_init 1000) reinserted_keys)
                          (JInt 1001) JNull))) (JInt 0) = None \<and>
   map_of (mapper (snd (put (put_all (TxResultMapper_init 1000) reinserted_keys)
                          (JInt 1001) JNull))) (JInt 1) \<noteq> None"
proof -
  let ?m2 = "\<lparr>limit_capacity = 1000, mapper = [(JInt 0, JNull), (JInt 1, JNull)],
     key_list = [JInt 0, JInt 1, JInt 0]\<rparr>"
  let ?m3 = "\<lparr>limit_capacity = 1000,
     mapper = [(JInt 0, JNull), (JInt 1, JNull)] @ int_keys 2 1001,
     key_list = [JInt 0, JInt 1, JInt 0] @ map fst (int_keys 2 1001)\<rparr>"
  let ?m4 = "?m3\<lparr>key_list := ([JInt 1, JInt 0] @ map fst (int_keys 2 1001)) @ [JInt 1001],
     mapper := AList.update (JInt 1001) JNull (AList.delete (JInt 0) (mapper ?m3))\<rparr>"
  have m2: "put_all (TxResultMapper_init 1000) (int_keys 0 2 @ int_keys 0 1) = ?m2"
    by (simp add: int_keys_def TxResultMapper_init_def put_def check_limit_def len_def py_key_def
        numeral_2_eq_2)
  have "put_all ?m2 (int_keys 2 1001) =
    ?m2\<lparr>key_list := key_list ?m2 @ map fst (int_keys 2 1001),
         mapper := mapper ?m2 @ int_keys 2 1001\<rparr>"
  proof (rule put_all_fill)
    show "\<forall>k \<in> fst ` set (int_keys 2 1001). py_key k = Some k" by (rule int_keys_py_key)
    show "distinct (map fst (int_keys 2 1001))" by (rule int_keys_distinct)
    show "fst ` set (int_keys 2 1001) \<inter> fst ` set (mapper ?m2) = {}"
      by (simp add: int_keys_member)
    show "len ?m2 + int (length (int_keys 2 1001)) \<le> limit_capacity ?m2 + 1"
      by (simp add: len_def length_int_keys)
  qed
  then have m3: "put_all ?m2 (int_keys 2 1001) = ?m3" by simp
  have "put_all (TxResultMapper_init 1000) reinserted_keys =
      put_all (TxResultMapper_init 1000) ((int_keys 0 2 @ int_keys 0 1) @ int_keys 2 1001)"
    by (simp only: reinserted_keys_def append_assoc)
  also have "\<dots> = ?m3"
    by (simp only: put_all_append m2 [unfolded put_all_append] m3)
  finally have all: "put_all (TxResultMapper_init 1000) reinserted_keys = ?m3" .
  have p: "put ?m3 (JInt 1001) JNull = (Inr (), ?m4)"
    by (rule put_evict [where oldest = "JInt 0"])
      (simp_all add: len_def length_int_keys py_key_JInt)
  have keys: "map fst reinserted_keys = [JInt 0, JInt 1, JInt 0] @ map fst (int_keys 2 1001)"
    by (simp add: reinserted_keys_def int_keys_def numeral_2_eq_2)
  have l1: "last_insertion (map fst reinserted_keys) (JInt 1) = Some 1"
    unfolding keys by (subst last_insertion_append_absent) (simp_all add: int_keys_member)
  have l0: "last_insertion (map fst reinserted_keys) (JInt 0) = Some 2"
    unfolding keys by (subst last_insertion_append_absent) (simp_all add: int_keys_member)
  have after0: "map_of (mapper ?m4) (JInt 0) = None"
    by (simp add: AList.update_conv' AList.delete_conv')
  have after1: "map_of (mapper ?m4) (JInt 1) = Some JNull"
    by (simp add: AList.update_conv' AList.delete_conv')
  have before: "map_of (mapper ?m3) (JInt 0) = Some JNull"
    "map_of (mapper ?m3) (JInt 1) = Some JNull"
    by simp_all
  have big: "len ?m3 > 1000"
    by (simp add: len_def length_int_keys)
  show ?thesis
    unfolding all p fst_conv snd_conv
    using after0 after1 before big l0 l1 by (simp only: option.simps simp_thms)
qed

section \<open>Properties of the transaction handlers\<close>

lemma response_to_json_frame:
  "backend_calls (snd (response_to_json s r)) = backend_calls s"
  "block_height (snd (response_to_json s r)) = block_height s"
  by (auto simp: response_to_json_def split: json.splits sum.splits prod.splits)

lemma icx_sendTransaction_rejected:
  assumes "validate_jsonrpc_message (validate w) = Inl e"
  shows "icx_sendTransaction s w ps = (Inl e, s)"
  using assms by (simp add: icx_sendTransaction_def)

lemma validate_jsonrpc_message_cases:
  "validate w \<noteq> Valid \<Longrightarrow>
     \<exists>code message. validate_jsonrpc_message (validate w)
        = Inl (GenericJsonRpcServerError code message HTTP_BAD_REQUEST)"
  by (cases "validate w") (simp_all add: validate_jsonrpc_message_def)

lemma icx_sendTransaction_invalid:
  assumes "validate w \<noteq> Valid"
  shows "\<exists>code message. icx_sendTransaction s w ps
           = (Inl (GenericJsonRpcServerError code message HTTP_BAD_REQUEST), s)"
proof -
  from validate_jsonrpc_message_cases [OF assms] obtain code message where
    "validate_jsonrpc_message (validate w)
       = Inl (GenericJsonRpcServerError code message HTTP_BAD_REQUEST)"
    by blast
  then have "icx_sendTransaction s w ps
      = (Inl (GenericJsonRpcServerError code message HTTP_BAD_REQUEST), s)"
    by (rule icx_sendTransaction_rejected)
  then show ?thesis by blast
qed

text \<open>
  Claim C8. When the validation of the parameters fails, \<^verbatim>\<open>icx_sendTransaction\<close> raises
  the error (a \<^verbatim>\<open>GenericJsonRpcServerError\<close> with the status 400) and leaves the server as it
  was: the block height, the result cache and the list of calls made on the backend are
  unchanged, so no backend operation was invoked.
\<close>

theorem rejected_transaction_changes_nothing:
  assumes "validate w \<noteq> Valid"
  shows "snd (icx_sendTransaction s w request_params) = s \<and>
    (\<exists>code message. fst (icx_sendTransaction s w request_params)
       = Inl (GenericJsonRpcServerError code message HTTP_BAD_REQUEST))"
proof -
  from icx_sendTransaction_invalid [OF assms, of s request_params] obtain code message where
    "icx_sendTransaction s w request_params
      = (Inl (GenericJsonRpcServerError code message HTTP_BAD_REQUEST), s)"
    by blast
  then show ?thesis by simp
qed

text \<open>Claim C8 at a transaction the validator rejects with the code 32602.\<close>

theorem rejected_transaction_changes_nothing_witness:
  "validate rejected_world \<noteq> Valid \<and>
   snd (icx_sendTransaction server_init rejected_world sample_params) = server_init \<and>
   (\<exists>code message. fst (icx_sendTransaction server_init rejected_world sample_params)
       = Inl (GenericJsonRpcServerError code message HTTP_BAD_REQUEST))"
proof -
  have "validate rejected_world \<noteq> Valid"
    by (simp add: rejected_world_def)
  from this rejected_transaction_changes_nothing [OF this, of server_init sample_params]
  show ?thesis by (rule conjI)
qed

lemma precommit_decision_shaped:
  assumes "\<not> is_list response \<or> first_status response \<noteq> None"
  shows "precommit_decision response =
    Inr (if (case first_status response of Some st \<Rightarrow> py_eq_1 st | None \<Rightarrow> False)
         then Write_precommit_state else Remove_precommit_state)"
  using assms
  by (auto simp: precommit_decision_def first_status_def is_list_def py_first_def py_getitem_def
      split: json.splits list.splits option.splits)

text \<open>The calls an accepted transaction makes on the backend: the execution, then at most
  one of the two precommit calls; and the block height goes up by one.\<close>

lemma icx_sendTransaction_accepted_calls:
  assumes "validate w = Valid"
  shows "\<exists>cs. backend_calls (snd (icx_sendTransaction s w ps)) =
      backend_calls s @
      Icx_send_transaction
        (make_request ps (params_hash w) (block_height s + 1) (time_hash w) (time_us w)) # cs \<and>
      (case execute w of Inl e \<Rightarrow> cs = []
       | Inr response \<Rightarrow>
          (case precommit_decision response of Inl e \<Rightarrow> cs = [] | Inr call \<Rightarrow> cs = [call])) \<and>
      block_height (snd (icx_sendTransaction s w ps)) = block_height s + 1"
  using assms
  by (auto simp: icx_sendTransaction_def validate_jsonrpc_message_def get_block_height_def Let_def
      response_to_json_frame split: sum.splits option.splits)

text \<open>
  Claim C1. For a call of \<^verbatim>\<open>icx_sendTransaction\<close> that passes validation, and so reaches
  the backend's execution, and whose backend reply is one of the three kinds the backend
  gives (a list whose first entry has the success status, a list whose first entry has
  another status, or a value that is not a list), the calls made on the backend are the
  execution followed by exactly one precommit call: \<^verbatim>\<open>write_precommit_state\<close> when the
  reply is a list whose first status equals \<^verbatim>\<open>1\<close>, \<^verbatim>\<open>remove_precommit_state\<close> otherwise.
  This is the list of calls when the handler returns its value or raises its error,
  whatever happens after the precommit call.
\<close>

theorem precommit_call_exactly_once:
  assumes "validate w = Valid" and "execute w = Inr response"
    and "\<not> is_list response \<or> first_status response \<noteq> None"
  shows "backend_calls (snd (icx_sendTransaction s w request_params)) =
    backend_calls s @
      [Icx_send_transaction
         (make_request request_params (params_hash w) (block_height s + 1) (time_hash w)
            (time_us w)),
       if (case first_status response of Some st \<Rightarrow> py_eq_1 st | None \<Rightarrow> False)
       then Write_precommit_state else Remove_precommit_state]"
  using icx_sendTransaction_accepted_calls [OF assms(1), of s request_params]
    precommit_decision_shaped [OF assms(3)] assms(2)
  by auto

text \<open>Claim C1 at a transaction the backend executes with the status 1: one call of
  \<^verbatim>\<open>write_precommit_state\<close>, none of \<^verbatim>\<open>remove_precommit_state\<close>.\<close>

theorem precommit_call_exactly_once_witness:
  "validate committed_world = Valid \<and>
   execute committed_world = Inr (JList [sample_result]) \<and>
   first_status (JList [sample_result]) = Some (JInt 1) \<and>
   backend_calls (snd (icx_sendTransaction server_init committed_world sample_params)) =
     [Icx_send_transaction (make_request sample_params ''0xabc'' 1 ''0xdef'' 1),
      Write_precommit_state]"
proof -
  have v: "validate committed_world = Valid"
    and e: "execute committed_world = Inr (JList [sample_result])"
    by (simp_all add: committed_world_def)
  have f: "first_status (JList [sample_result]) = Some (JInt 1)"
    by (simp add: first_status_def sample_result_def)
  then have shape:
    "\<not> is_list (JList [sample_result]) \<or> first_status (JList [sample_result]) \<noteq> None"
    by simp
  have "backend_calls (snd (icx_sendTransaction server_init committed_world sample_params)) =
     [Icx_send_transaction (make_request sample_params ''0xabc'' 1 ''0xdef'' 1),
      Write_precommit_state]"
    using precommit_call_exactly_once [OF v e shape, of server_init sample_params]
    by (simp add: f py_eq_1_def server_init_def committed_world_def)
  with v e f show ?thesis by blast
qed

subsection \<open>Block heights\<close>

lemma block_heights_append: "block_heights (xs @ ys) = block_heights xs @ block_heights ys"
  by (induction xs rule: block_heights.induct) simp_all

lemma request_block_height_make_request:
  "request_block_height (make_request ps th h bh t) = Some (JInt h)"
  by (simp add: request_block_height_def make_request_def py_getitem_def)

lemma precommit_decision_heights:
  "precommit_decision response = Inr call \<Longrightarrow> block_heights [call] = []"
  by (auto simp: precommit_decision_def split: json.splits sum.splits if_splits)

lemma icx_sendTransaction_heights:
  "block_heights (backend_calls (snd (icx_sendTransaction s w ps))) =
     block_heights (backend_calls s) @
       (if validate w = Valid then [Some (JInt (block_height s + 1))] else [])"
proof (cases "validate w = Valid")
  case True
  from icx_sendTransaction_accepted_calls [OF True, of s ps] obtain cs where
    calls: "backend_calls (snd (icx_sendTransaction s w ps)) =
      backend_calls s @
      Icx_send_transaction
        (make_request ps (params_hash w) (block_height s + 1) (time_hash w) (time_us w)) # cs"
    and cs: "(case execute w of Inl e \<Rightarrow> cs = []
     | Inr response \<Rightarrow>
        (case precommit_decision response of Inl e \<Rightarrow> cs = [] | Inr call \<Rightarrow> cs = [call]))"
    by blast
  from cs have "block_heights cs = []"
    by (auto split: sum.splits dest: precommit_decision_heights)
  with True show ?thesis
    by (simp add: calls block_heights_append request_block_height_make_request)
next
  case False
  with icx_sendTransaction_invalid [OF False, of s ps] show ?thesis by auto
qed

lemma icx_sendTransaction_block_height:
  "block_height (snd (icx_sendTransaction s w ps)) =
     block_height s + (if validate w = Valid then 1 else 0)"
proof (cases "validate w = Valid")
  case True
  with icx_sendTransaction_accepted_calls [OF True, of s ps] show ?thesis by auto
next
  case False
  with icx_sendTransaction_invalid [OF False, of s ps] show ?thesis by auto
qed

lemma send_all_heights:
  "block_heights (backend_calls (send_all s calls)) =
     block_heights (backend_calls s) @
       map (\<lambda>h. Some (JInt h))
         [block_height s + 1 ..
          block_height s + int (length (filter (\<lambda>(w, ps). validate w = Valid) calls))]"
proof (induction calls arbitrary: s)
  case Nil
  then show ?case by simp
next
  case (Cons c calls)
  obtain w ps where c: "c = (w, ps)" by (cases c)
  let ?s1 = "snd (icx_sendTransaction s w ps)"
  let ?n = "int (length (filter (\<lambda>(w, ps). validate w = Valid) calls))"
  show ?case
  proof (cases "validate w = Valid")
    case True
    have "[block_height s + 1 .. block_height s + (1 + ?n)] =
        (block_height s + 1) # [block_height s + 1 + 1 .. block_height s + 1 + ?n]"
      by (subst upto_rec1) (simp_all add: add.assoc)
    with True Cons.IH [of ?s1] show ?thesis
      by (simp add: c icx_sendTransaction_heights icx_sendTransaction_block_height)
  next
    case False
    with Cons.IH [of ?s1] show ?thesis
      by (simp add: c icx_sendTransaction_heights icx_sendTransaction_block_height)
  qed
qed

text \<open>
  Claim C4. For every sequence of calls of \<^verbatim>\<open>icx_sendTransaction\<close> on a server that has
  just started, the block heights in the requests given to the backend are
  \<^verbatim>\<open>1, 2, ..., n\<close> in this order, where \<^verbatim>\<open>n\<close> is the number of calls that passed validation:
  the first accepted call sees the height 1, each further one the next height, and no two
  see the same.
\<close>

theorem block_heights_count_from_one:
  "block_heights (backend_calls (send_all server_init calls)) =
     map (\<lambda>h. Some (JInt h))
       [1 .. int (length (filter (\<lambda>(w, ps). validate w = Valid) calls))]"
  using send_all_heights [of server_init calls] by (simp add: server_init_def)

subsection \<open>Looking up a result\<close>

text \<open>
  Claim C7. \<^verbatim>\<open>icx_getTransactionResult\<close> raises the ``not found'' error, with the code of
  \<^verbatim>\<open>InvalidParams\<close> and the status 400, when the parameters have no \<^verbatim>\<open>txHash\<close> and when the
  \<^verbatim>\<open>txHash\<close> is not a key of the cache (an unhashable value is no key). When the \<^verbatim>\<open>txHash\<close>
  is a key of the cache, the stored result is returned as it is. The handler raises nothing
  else.
\<close>

theorem icx_getTransactionResult_found_or_not_found:
  "(map_of request_params ''txHash'' = None \<longrightarrow>
      icx_getTransactionResult s request_params = Inl not_found) \<and>
   (\<forall>h. map_of request_params ''txHash'' = Some h \<and>
        (\<forall>k. py_key h = Some k \<longrightarrow> map_of (mapper (tx_result_mapper s)) k = None) \<longrightarrow>
      icx_getTransactionResult s request_params = Inl not_found) \<and>
   (\<forall>h k r. map_of request_params ''txHash'' = Some h \<and> py_key h = Some k \<and>
        map_of (mapper (tx_result_mapper s)) k = Some r \<longrightarrow>
      icx_getTransactionResult s request_params = Inr r)"
  by (auto simp: icx_getTransactionResult_def py_getitem_def getitem_def not_found_def
      split: option.splits)

lemma committed_server_cache:
  "mapper (tx_result_mapper committed_server) = [(JStr ''0xabc'', sample_result)]"
  by (simp add: committed_server_def icx_sendTransaction_def committed_world_def server_init_def
      validate_jsonrpc_message_def get_block_height_def precommit_decision_def py_first_def
      py_getitem_def sample_result_def py_eq_1_def response_to_json_def put_def check_limit_def
      len_def TxResultMapper_init_def py_key_def)

text \<open>Claim C7 on the server after the committed transaction: no \<^verbatim>\<open>txHash\<close>, an unknown
  hash, and the hash of the transaction.\<close>

theorem icx_getTransactionResult_found_or_not_found_witness:
  "map_of [] ''txHash'' = (None :: json option) \<and>
   icx_getTransactionResult committed_server [] = Inl not_found \<and>
   map_of [(''txHash'', JStr ''0xdead'')] ''txHash'' = Some (JStr ''0xdead'') \<and>
   py_key (JStr ''0xdead'') = Some (JStr ''0xdead'') \<and>
   map_of (mapper (tx_result_mapper committed_server)) (JStr ''0xdead'') = None \<and>
   icx_getTransactionResult committed_server [(''txHash'', JStr ''0xdead'')] = Inl not_found \<and>
   map_of [(''txHash'', JStr ''0xabc'')] ''txHash'' = Some (JStr ''0xabc'') \<and>
   py_key (JStr ''0xabc'') = Some (JStr ''0xabc'') \<and>
   map_of (mapper (tx_result_mapper committed_server)) (JStr ''0xabc'') = Some sample_result \<and>
   icx_getTransactionResult committed_server [(''txHash'', JStr ''0xabc'')] = Inr sample_result"
proof -
  have a: "map_of [] ''txHash'' = (None :: json option)"
    by simp
  have b1: "map_of [(''txHash'', JStr ''0xdead'')] ''txHash'' = Some (JStr ''0xdead'')"
    by simp
  have b2: "py_key (JStr ''0xdead'') = Some (JStr ''0xdead'')"
    by (simp add: py_key_def)
  have b3: "map_of (mapper (tx_result_mapper committed_server)) (JStr ''0xdead'') = None"
    by (simp add: committed_server_cache)
  from b2 b3 have b4: "\<forall>k. py_key (JStr ''0xdead'') = Some k \<longrightarrow>
        map_of (mapper (tx_result_mapper committed_server)) k = None"
    by simp
  have c1: "map_of [(''txHash'', JStr ''0xabc'')] ''txHash'' = Some (JStr ''0xabc'')"
    by simp
  have c2: "py_key (JStr ''0xabc'') = Some (JStr ''0xabc'')"
    by (simp add: py_key_def)
  have c3: "map_of (mapper (tx_result_mapper committed_server)) (JStr ''0xabc'')
      = Some sample_result"
    by (simp add: committed_server_cache)
  have ra: "icx_getTransactionResult committed_server [] = Inl not_found"
    using icx_getTransactionResult_found_or_not_found [of "[]" committed_server] a by blast
  have rb: "icx_getTransactionResult committed_server [(''txHash'', JStr ''0xdead'')]
      = Inl not_found"
    using icx_getTransactionResult_found_or_not_found
      [of "[(''txHash'', JStr ''0xdead'')]" committed_server] b1 b4 by blast
  have rc: "icx_getTransactionResult committed_server [(''txHash'', JStr ''0xabc'')]
      = Inr sample_result"
    using icx_getTransactionResult_found_or_not_found
      [of "[(''txHash'', JStr ''0xabc'')]" committed_server] c1 c2 c3 by blast
  from a b1 b2 b3 c1 c2 c3 ra rb rc show ?thesis by blast
qed

end
